theory Spec2Isabelle
  imports Main "HOL-Library.AList" "HOL-Library.Word"
begin

section \<open>HoneyBadger: packet pipeline, dispatcher and connection pool\<close>

text \<open>
  A shallow embedding of the Go sources \<^verbatim>\<open>packetSource/service.go\<close> (the
  \<^verbatim>\<open>Inquisitor\<close> with its capture, decode and dispatch loops),
  \<^verbatim>\<open>cmd/honeyBadger/main.go\<close> (\<^verbatim>\<open>main\<close> and the \<^verbatim>\<open>Sniffer\<close>)
  and the older \<^verbatim>\<open>service.go\<close> with \<^verbatim>\<open>Inquisitor.CloseOlderThan\<close>.
  Goroutines are modelled by the events their \<^verbatim>\<open>select\<close> statements take; every
  call on another object is recorded, in order, in a trace.
\<close>

subsection \<open>Basic types\<close>

type_synonym byte = "8 word"
type_synonym ipaddr = "32 word"
type_synonym tcpport = "16 word"

text \<open>\<^verbatim>\<open>time.Time\<close> as an instant in nanoseconds counted from Go's zero time, so that
  the zero value \<^verbatim>\<open>time.Time{}\<close> is \<open>0\<close>; \<^verbatim>\<open>time.Duration\<close> in nanoseconds.\<close>

type_synonym time = int
type_synonym duration = int

type_synonym conn_id = nat

subsection \<open>Flow keys\<close>

text \<open>\<^verbatim>\<open>types.TcpIpFlow\<close>: the network flow (source and destination address) and the
  transport flow (source and destination port) of one packet.\<close>

record TcpIpFlow =
  ipFlow :: "ipaddr \<times> ipaddr"
  tcpFlow :: "tcpport \<times> tcpport"

definition NewTcpIpFlowFromFlows :: "ipaddr \<times> ipaddr \<Rightarrow> tcpport \<times> tcpport \<Rightarrow> TcpIpFlow" where
  "NewTcpIpFlowFromFlows netFlow transFlow = \<lparr>ipFlow = netFlow, tcpFlow = transFlow\<rparr>"

text \<open>Modelled from the spec: \<^verbatim>\<open>TcpIpFlow.Reverse\<close> is not under src. "Reversing a
  directional view yields the opposite view": source and destination are exchanged.\<close>

definition Reverse :: "TcpIpFlow \<Rightarrow> TcpIpFlow" where
  "Reverse f = \<lparr>ipFlow = (snd (ipFlow f), fst (ipFlow f)),
                tcpFlow = (snd (tcpFlow f), fst (tcpFlow f))\<rparr>"

text \<open>Modelled from the spec: the key under which the pool files a flow is not under
  src. "A flow key is the unordered pair {(srcIP,srcPort),(dstIP,dstPort)}".\<close>

type_synonym flowkey = "(ipaddr \<times> tcpport) set"

definition flowKey :: "TcpIpFlow \<Rightarrow> flowkey" where
  "flowKey f = {(fst (ipFlow f), fst (tcpFlow f)), (snd (ipFlow f), snd (tcpFlow f))}"

subsection \<open>Connection pool\<close>

text \<open>Modelled from the spec: \<^verbatim>\<open>ConnectionPool\<close> (\<^verbatim>\<open>NewConnectionPool\<close>,
  \<^verbatim>\<open>Has\<close>, \<^verbatim>\<open>Get\<close>, \<^verbatim>\<open>Put\<close>, \<^verbatim>\<open>Delete\<close>, \<^verbatim>\<open>Len\<close>,
  \<^verbatim>\<open>Connections\<close>) is not under src; only its callers and its test are. "Mapping
  from flow key to connection. Uniqueness on direction-agnostic key." The map is an
  association list from flow keys to connection pointers, one entry per key.\<close>

type_synonym ConnectionPool = "(flowkey \<times> conn_id) list"

datatype error = NotFound

definition NewConnectionPool :: ConnectionPool where
  "NewConnectionPool = []"

definition Has :: "ConnectionPool \<Rightarrow> TcpIpFlow \<Rightarrow> bool" where
  "Has p f = (map_of p (flowKey f) \<noteq> None)"

definition Get :: "ConnectionPool \<Rightarrow> TcpIpFlow \<Rightarrow> error + conn_id" where
  "Get p f = (case map_of p (flowKey f) of None \<Rightarrow> Inl NotFound | Some c \<Rightarrow> Inr c)"

definition Put :: "ConnectionPool \<Rightarrow> TcpIpFlow \<Rightarrow> conn_id \<Rightarrow> ConnectionPool" where
  "Put p f c = AList.update (flowKey f) c p"

definition Delete :: "ConnectionPool \<Rightarrow> TcpIpFlow \<Rightarrow> ConnectionPool" where
  "Delete p f = AList.delete (flowKey f) p"

definition Len :: "ConnectionPool \<Rightarrow> int" where
  "Len p = int (length p)"

definition Connections :: "ConnectionPool \<Rightarrow> conn_id list" where
  "Connections p = map snd p"

subsection \<open>Packets\<close>

text \<open>The fields of gopacket's \<^verbatim>\<open>layers.IPv4\<close> and \<^verbatim>\<open>layers.TCP\<close> that the flow
  of a packet is computed from (\<^verbatim>\<open>ip.NetworkFlow()\<close>, \<^verbatim>\<open>tcp.TransportFlow()\<close>).\<close>

record layers_IPv4 =
  SrcIP :: ipaddr
  DstIP :: ipaddr

record layers_TCP =
  SrcPort :: tcpport
  DstPort :: tcpport
  Seq :: "32 word"



record TimedRawPacket =
  Timestamp :: time
  RawPacket :: "byte list"

text \<open>\<^verbatim>\<open>PacketManifest\<close> repeats the two fields of \<^verbatim>\<open>TimedRawPacket\<close> and adds the
  flow and the decoded layers.\<close>

record PacketManifest = TimedRawPacket +
  Flow :: TcpIpFlow
  IP :: layers_IPv4
  TCP :: layers_TCP
  Payload :: "byte list"

subsection \<open>Connections\<close>

record ConnectionOptions =
  MaxBufferedPagesTotal :: int
  MaxBufferedPagesPerConnection :: int
  connMaxRingPackets :: int
  connLogDir :: string
  connLogPackets :: bool
  connDetectHijack :: bool
  connDetectInjection :: bool
  connDetectCoalesceInjection :: bool

text \<open>Modelled from the spec: \<^verbatim>\<open>Connection\<close> is not under src. Of a connection the
  model keeps its options, its \<^verbatim>\<open>lastSeen\<close> timestamp (the zero time until a packet
  is received, as the pool test shows), whether \<^verbatim>\<open>Start\<close>, \<^verbatim>\<open>Stop\<close> and
  \<^verbatim>\<open>Close\<close> were called on it, whether it owns a started packet logger, and the
  manifests handed to \<^verbatim>\<open>ReceivePacket\<close>, oldest first. Teardown after \<^verbatim>\<open>Close\<close>
  or \<^verbatim>\<open>Stop\<close> ("closing asynchronously drains and removes from the map") belongs to
  the connection's own task and is no step of the callers modelled here.\<close>

record Connection =
  options :: ConnectionOptions
  lastSeen :: time
  started :: bool
  stopped :: bool
  closeRequested :: bool
  packetLogger :: bool
  inbox :: "PacketManifest list"

subsection \<open>The Inquisitor\<close>

datatype stage = Capture | Decode | Dispatch

datatype handle_state = Open | Closed

text \<open>Every call the Inquisitor makes on its collaborators, in the order made. Logged
  text is kept without its trailing newline; the arguments of a \<^verbatim>\<open>Printf\<close> are kept
  beside the format.\<close>

datatype action =
    LogPrint string
  | LogPrintf string "int list"
  | NewConnectionCall conn_id
  | PacketLoggerStart conn_id
  | PoolPut flowkey conn_id
  | ConnStart conn_id
  | ConnStop conn_id
  | ConnClose conn_id
  | ConnReceivePacket conn_id PacketManifest
  | StopSignal stage
  | HandleClose
  | PagerStart
  | PagerStop
  | CloseTchan

record InquisitorOptions =
  Interface :: string
  Filename :: string
  WireDuration :: duration
  BufferedPerConnection :: int
  BufferedTotal :: int
  Filter :: string
  LogDir :: string
  Snaplen :: int
  LogPackets :: bool
  TcpIdleTimeout :: duration
  MaxRingPackets :: int
  DetectHijack :: bool
  DetectInjection :: bool
  DetectCoalesceInjection :: bool
  MaxConcurrentConnections :: int

text \<open>The \<^verbatim>\<open>Inquisitor\<close> struct embeds its options. A stop channel is unbuffered: a
  send on it completes when the loop that selects on it takes the value and returns, so
  the model keeps, per loop, whether it is running. \<open>closeConnectionChan\<close> holds the
  connections blocked sending a close request, oldest first; \<open>heap\<close> holds the
  connection objects that the pool's pointers refer to, \<open>nextConn\<close> the next fresh one.\<close>

record Inquisitor = InquisitorOptions +
  captureLoop :: bool
  decodeLoop :: bool
  dispatchLoop :: bool
  readerLoop :: bool
  tchanClosed :: bool
  closeConnectionChan :: "conn_id list"
  pool :: ConnectionPool
  heap :: "conn_id \<Rightarrow> Connection"
  nextConn :: conn_id
  handle :: "handle_state option"
  pager :: bool
  trace :: "action list"

definition emit :: "action \<Rightarrow> Inquisitor \<Rightarrow> Inquisitor" where
  "emit a i = i\<lparr>trace := trace i @ [a]\<rparr>"

definition updConn :: "conn_id \<Rightarrow> (Connection \<Rightarrow> Connection) \<Rightarrow> Inquisitor \<Rightarrow> Inquisitor" where
  "updConn c f i = i\<lparr>heap := (heap i)(c := f (heap i c))\<rparr>"

text \<open>Modelled from the spec: the methods of \<^verbatim>\<open>Connection\<close> are not under src. Each
  is recorded in the trace and sets the matching field of the connection object.
  \<^verbatim>\<open>ReceivePacket\<close> appends the manifest to the connection's input and makes its
  timestamp the connection's \<^verbatim>\<open>lastSeen\<close>.\<close>

definition zeroConnection :: Connection where
  "zeroConnection = \<lparr>options = \<lparr>MaxBufferedPagesTotal = 0, MaxBufferedPagesPerConnection = 0,
       connMaxRingPackets = 0, connLogDir = [], connLogPackets = False, connDetectHijack = False,
       connDetectInjection = False, connDetectCoalesceInjection = False\<rparr>,
     lastSeen = 0, started = False, stopped = False, closeRequested = False,
     packetLogger = False, inbox = []\<rparr>"

definition NewConnection :: "ConnectionOptions \<Rightarrow> Inquisitor \<Rightarrow> conn_id \<times> Inquisitor" where
  "NewConnection opts i =
     (nextConn i,
      emit (NewConnectionCall (nextConn i))
        (i\<lparr>heap := (heap i)(nextConn i := zeroConnection\<lparr>options := opts\<rparr>),
           nextConn := Suc (nextConn i)\<rparr>))"

definition connStart :: "conn_id \<Rightarrow> Inquisitor \<Rightarrow> Inquisitor" where
  "connStart c i = emit (ConnStart c) (updConn c (\<lambda>x. x\<lparr>started := True\<rparr>) i)"

definition connStop :: "conn_id \<Rightarrow> Inquisitor \<Rightarrow> Inquisitor" where
  "connStop c i = emit (ConnStop c) (updConn c (\<lambda>x. x\<lparr>stopped := True\<rparr>) i)"

definition connClose :: "conn_id \<Rightarrow> Inquisitor \<Rightarrow> Inquisitor" where
  "connClose c i = emit (ConnClose c) (updConn c (\<lambda>x. x\<lparr>closeRequested := True\<rparr>) i)"

definition connReceivePacket :: "conn_id \<Rightarrow> PacketManifest \<Rightarrow> Inquisitor \<Rightarrow> Inquisitor" where
  "connReceivePacket c pm i =
     emit (ConnReceivePacket c pm)
       (updConn c (\<lambda>x. x\<lparr>inbox := inbox x @ [pm], lastSeen := Timestamp pm\<rparr>) i)"

definition startPacketLogger :: "conn_id \<Rightarrow> Inquisitor \<Rightarrow> Inquisitor" where
  "startPacketLogger c i = emit (PacketLoggerStart c) (updConn c (\<lambda>x. x\<lparr>packetLogger := True\<rparr>) i)"

definition poolPut :: "TcpIpFlow \<Rightarrow> conn_id \<Rightarrow> Inquisitor \<Rightarrow> Inquisitor" where
  "poolPut flow c i = emit (PoolPut (flowKey flow) c) (i\<lparr>pool := Put (pool i) flow c\<rparr>)"

subsection \<open>Closing connections (\<^verbatim>\<open>CloseOlderThan\<close>, \<^verbatim>\<open>CloseAllConnections\<close>)\<close>

text \<open>\<^verbatim>\<open>Inquisitor.CloseOlderThan\<close> and \<^verbatim>\<open>Inquisitor.CloseAllConnections\<close> of the
  older \<^verbatim>\<open>service.go\<close>; the dispatcher and \<^verbatim>\<open>Stop\<close> of the newer one call the
  methods of the same names on the pool, which are not under src and are taken to be
  these. The loop of \<^verbatim>\<open>CloseOlderThan\<close> over the snapshot \<^verbatim>\<open>Connections()\<close>:
  \<^verbatim>\<open>if conn.lastSeen.Equal(t) || conn.lastSeen.Before(t) { conn.Close(); closed += 1 }\<close>.\<close>

fun closeOlderLoop :: "conn_id list \<Rightarrow> time \<Rightarrow> Inquisitor \<Rightarrow> int \<Rightarrow> Inquisitor \<times> int" where
  "closeOlderLoop [] t i closed = (i, closed)"
| "closeOlderLoop (c # cs) t i closed =
     (if lastSeen (heap i c) = t \<or> lastSeen (heap i c) < t
      then closeOlderLoop cs t (connClose c i) (closed + 1)
      else closeOlderLoop cs t i closed)"

definition CloseOlderThan :: "time \<Rightarrow> Inquisitor \<Rightarrow> Inquisitor \<times> int" where
  "CloseOlderThan t i =
     (let i1 = emit (LogPrintf ''CloseOlderThan %s'' [t]) i;
          conns = Connections (pool i1)
      in closeOlderLoop conns t i1 0)"

fun closeAllLoop :: "conn_id list \<Rightarrow> Inquisitor \<Rightarrow> Inquisitor" where
  "closeAllLoop [] i = i"
| "closeAllLoop (c # cs) i = closeAllLoop cs (connClose c i)"


subsection \<open>The dispatcher (\<^verbatim>\<open>setupNewConnection\<close>, \<^verbatim>\<open>dispatchPackets\<close>)\<close>

definition setupNewConnection :: "Inquisitor \<Rightarrow> TcpIpFlow \<Rightarrow> conn_id \<times> Inquisitor" where
  "setupNewConnection i flow =
     (let opts = \<lparr>MaxBufferedPagesTotal = BufferedTotal i,
                  MaxBufferedPagesPerConnection = BufferedPerConnection i,
                  connMaxRingPackets = MaxRingPackets i,
                  connLogDir = LogDir i,
                  connLogPackets = LogPackets i,
                  connDetectHijack = DetectHijack i,
                  connDetectInjection = DetectInjection i,
                  connDetectCoalesceInjection = DetectCoalesceInjection i\<rparr>;
          (conn, i1) = NewConnection opts i;
          i2 = (if LogPackets i1 then startPacketLogger conn i1 else i1);
          i3 = poolPut flow conn i2;
          i4 = connStart conn i3
      in (conn, i4))"

datatype loop_result = Continue Inquisitor | Return Inquisitor | Panic error

text \<open>What the second \<^verbatim>\<open>select\<close> of the dispatcher takes: a tick of the idle timer
  (with the wall-clock time \<^verbatim>\<open>time.Now()\<close> read while handling it), the stop signal, or
  a packet manifest.\<close>

datatype event = Tick time | StopDispatch | Manifest PacketManifest

text \<open>\<^verbatim>\<open>ticker := time.Tick(timeout)\<close>: the channel is nil, and never delivers, when the
  period is not positive.\<close>

definition ticker :: "Inquisitor \<Rightarrow> duration option" where
  "ticker i = (if TcpIdleTimeout i \<le> 0 then None else Some (TcpIdleTimeout i))"

definition enabled :: "Inquisitor \<Rightarrow> event \<Rightarrow> bool" where
  "enabled i ev = (case ev of Tick now \<Rightarrow> ticker i \<noteq> None | StopDispatch \<Rightarrow> True | Manifest pm \<Rightarrow> True)"

text \<open>The first \<^verbatim>\<open>select\<close>, with its \<^verbatim>\<open>default\<close>: one pending close request, if there
  is any, is received and its connection stopped.\<close>

definition closeSelect :: "Inquisitor \<Rightarrow> Inquisitor" where
  "closeSelect i =
     (case closeConnectionChan i of
        [] \<Rightarrow> i
      | conn # rest \<Rightarrow>
          connStop conn (emit (LogPrint ''Close request received.'') (i\<lparr>closeConnectionChan := rest\<rparr>)))"

definition eventSelect :: "Inquisitor \<Rightarrow> event \<Rightarrow> loop_result" where
  "eventSelect i ev =
     (case ev of
        Tick now \<Rightarrow>
          (let (i1, closed) = CloseOlderThan (now + TcpIdleTimeout i * (- 1)) i
           in Continue (if closed \<noteq> 0 then emit (LogPrintf ''timeout closed %d connections'' [closed]) i1
                        else i1))
      | StopDispatch \<Rightarrow> Return (i\<lparr>dispatchLoop := False\<rparr>)
      | Manifest packetManifest \<Rightarrow>
          (if Has (pool i) (Flow packetManifest) then
             (case Get (pool i) (Flow packetManifest) of
                Inl err \<Rightarrow> Panic err
              | Inr conn \<Rightarrow> Continue (connReceivePacket conn packetManifest i))
           else if MaxConcurrentConnections i \<noteq> 0 \<and> Len (pool i) \<ge> MaxConcurrentConnections i then
             Continue i
           else
             (let (conn, i1) = setupNewConnection i (Flow packetManifest)
              in Continue (connReceivePacket conn packetManifest i1))))"

definition dispatchIteration :: "Inquisitor \<Rightarrow> event \<Rightarrow> loop_result" where
  "dispatchIteration i ev = eventSelect (closeSelect i) ev"


subsection \<open>The decoder (\<^verbatim>\<open>decodePackets\<close>)\<close>


datatype LayerType = LayerTypeEthernet | LayerTypeIPv4 | LayerTypeTCP | LayerTypePayload







subsection \<open>Start, Stop and the capture reader\<close>



text \<open>\<^verbatim>\<open>i.stopXChan <- true\<close>: the loop of that stage takes the value in its
  \<^verbatim>\<open>select\<close> and returns; with no loop to take it the sender blocks for good.\<close>

datatype failure = SendBlocked stage | NilHandle | HandleOpenFailed | DispatchPanic error





text \<open>\<^verbatim>\<open>Start\<close>; whether \<^verbatim>\<open>setupHandle\<close> manages to open the capture (pcap's
  answer) is the parameter \<open>opens\<close>, and its failure is fatal.\<close>

definition Start :: "bool \<Rightarrow> Inquisitor \<Rightarrow> failure + Inquisitor" where
  "Start opens i =
     (if handle i = None \<and> \<not> opens then Inl HandleOpenFailed
      else
        (let i1 = (if handle i = None then i\<lparr>handle := Some Open\<rparr> else i);
             i2 = i1\<lparr>captureLoop := True, readerLoop := True, decodeLoop := True, dispatchLoop := True\<rparr>
         in Inr (emit PagerStart (i2\<lparr>pager := True\<rparr>))))"

definition NewInquisitor :: "InquisitorOptions \<Rightarrow> Inquisitor" where
  "NewInquisitor opts =
     InquisitorOptions.extend opts
       (Inquisitor.fields False False False False False [] NewConnectionPool
          (\<lambda>c. zeroConnection) 0 None False [])"





text \<open>Whether \<open>a\<close> occurs in a trace with \<open>b\<close> somewhere after its first occurrence.\<close>

fun precedes :: "'a \<Rightarrow> 'a \<Rightarrow> 'a list \<Rightarrow> bool" where
  "precedes a b [] = False"
| "precedes a b (x # xs) = (if x = a then b \<in> set xs else precedes a b xs)"

subsection \<open>The command line tool (\<^verbatim>\<open>main\<close>)\<close>

record Flags =
  pcapfile :: string
  iface :: string
  snaplen :: int
  filter_flag :: string
  logDir :: string
  archiveDir :: string
  wireTimeout :: string
  metadataAttackLog :: bool
  logPackets :: bool
  tcpTimeout :: duration
  maxRingPackets :: int
  detectHijack :: bool
  detectInjection :: bool
  detectCoalesceInjection :: bool
  maxConcurrentConnections :: int
  bufferedPerConnection :: int
  bufferedTotal :: int
  useAfPacket :: bool
  maxPcapLogSize :: int
  maxNumPcapRotations :: int

text \<open>The two \<^verbatim>\<open>log.Fatal\<close> exits of \<^verbatim>\<open>main\<close>.\<close>

datatype fatal = InvalidWireTimeout string | BufferBoundsUnset

datatype logger_kind = AttackMetadataJsonLogger | AttackJsonLogger

text \<open>What \<^verbatim>\<open>main\<close> has set up when it reaches \<^verbatim>\<open>supervisor.Run()\<close>, where
  capture starts: the attack logger started, the parsed wire timeout, whether a packet
  logger factory was made, and the flags the dispatcher and sniffer options are copied
  from.\<close>

record Startup =
  attackLogger :: logger_kind
  wireDuration :: duration
  packetLoggerFactory :: bool
  optionsFrom :: Flags

text \<open>\<^verbatim>\<open>time.ParseDuration\<close> is the Go library's; its answer on the \<^verbatim>\<open>-w\<close> flag is
  the parameter \<open>parsed\<close> (\<open>Inl\<close> its error).\<close>

definition main :: "string + duration \<Rightarrow> Flags \<Rightarrow> fatal + Startup" where
  "main parsed f =
     (case parsed of
        Inl err \<Rightarrow> Inl (InvalidWireTimeout (wireTimeout f))
      | Inr d \<Rightarrow>
          if maxConcurrentConnections f = 0 \<and> bufferedTotal f = 0 then Inl BufferBoundsUnset
          else Inr \<lparr>attackLogger = (if metadataAttackLog f then AttackMetadataJsonLogger else AttackJsonLogger),
                    wireDuration = d,
                    packetLoggerFactory = logPackets f,
                    optionsFrom = f\<rparr>)"

subsection \<open>Auxiliary notions and example data\<close>

text \<open>The connections of the pool last seen at or before \<open>t\<close>, in pool order.\<close>

definition olderThan :: "time \<Rightarrow> Inquisitor \<Rightarrow> conn_id list" where
  "olderThan t i = filter (\<lambda>c. lastSeen (heap i c) \<le> t) (Connections (pool i))"

text \<open>The calls an operation added to the trace.\<close>

definition newCalls :: "Inquisitor \<Rightarrow> Inquisitor \<Rightarrow> action list" where
  "newCalls i i' = drop (length (trace i)) (trace i')"

text \<open>Example data: the defaults of the command line with a pool limit of two, the flow
  of the pool test (1.2.3.4:1 to 2.3.4.5:2) and two other flows, and a running Inquisitor
  tracking the first two, last seen at times 100 and 200.\<close>

definition exampleOptions :: InquisitorOptions where
  "exampleOptions =
     \<lparr>Interface = ''eth0'', Filename = [], WireDuration = 3000000000,
      BufferedPerConnection = 0, BufferedTotal = 0, Filter = ''tcp'',
      LogDir = ''honeyBadger-logs'', Snaplen = 65536, LogPackets = False,
      TcpIdleTimeout = 50, MaxRingPackets = 40, DetectHijack = True,
      DetectInjection = True, DetectCoalesceInjection = True, MaxConcurrentConnections = 2\<rparr>"

definition flowA :: TcpIpFlow where
  "flowA = NewTcpIpFlowFromFlows (0x01020304, 0x02030405) (1, 2)"

definition flowB :: TcpIpFlow where
  "flowB = NewTcpIpFlowFromFlows (0x0A000001, 0x0A000002) (40000, 80)"

definition flowC :: TcpIpFlow where
  "flowC = NewTcpIpFlowFromFlows (0x0A000003, 0x0A000002) (40001, 80)"

definition manifestOf :: "time \<Rightarrow> TcpIpFlow \<Rightarrow> PacketManifest" where
  "manifestOf ts f =
     \<lparr>Timestamp = ts, RawPacket = [], Flow = f,
      IP = \<lparr>SrcIP = fst (ipFlow f), DstIP = snd (ipFlow f)\<rparr>,
      TCP = \<lparr>SrcPort = fst (tcpFlow f), DstPort = snd (tcpFlow f), Seq = 3\<rparr>,
      Payload = [1, 2, 3, 4, 5, 6, 7]\<rparr>"

definition exampleRunning :: Inquisitor where
  "exampleRunning =
     (NewInquisitor exampleOptions)
       \<lparr>captureLoop := True, decodeLoop := True, dispatchLoop := True, readerLoop := True,
        pool := Put (Put NewConnectionPool flowA 0) flowB 1,
        heap := (\<lambda>c. zeroConnection)
                  (0 := zeroConnection\<lparr>lastSeen := 100, started := True\<rparr>,
                   1 := zeroConnection\<lparr>lastSeen := 200, started := True\<rparr>),
        nextConn := 2, handle := Some Open, pager := True\<rparr>"


text \<open>The same Inquisitor with both connections blocked sending their close request.\<close>

definition examplePending :: Inquisitor where
  "examplePending = exampleRunning\<lparr>closeConnectionChan := [0, 1]\<rparr>"


text \<open>The command line's defaults (both bounds zero), with a wire timeout of three
  seconds.\<close>

definition defaultFlags :: Flags where
  "defaultFlags =
     \<lparr>pcapfile = [], iface = ''eth0'', snaplen = 65536, filter_flag = ''tcp'',
      logDir = ''honeyBadger-logs'', archiveDir = [], wireTimeout = ''3s'',
      metadataAttackLog = True, logPackets = False, tcpTimeout = 300000000000,
      maxRingPackets = 40, detectHijack = True, detectInjection = True,
      detectCoalesceInjection = True, maxConcurrentConnections = 0,
      bufferedPerConnection = 0, bufferedTotal = 0, useAfPacket = True,
      maxPcapLogSize = 1, maxNumPcapRotations = 10\<rparr>"

section \<open>Properties\<close>

subsection \<open>Flow keys and pool lookup\<close>

lemma flowKey_Reverse: "flowKey (Reverse f) = flowKey f"
  by (simp add: flowKey_def Reverse_def insert_commute)

lemma Reverse_Reverse: "Reverse (Reverse f) = f"
  by (simp add: Reverse_def)

text \<open>
  Claim C2. Pool lookup is direction-agnostic: for every flow \<open>K\<close> and every pool,
  \<open>Has K\<close> and \<open>Has (Reverse K)\<close> agree, and \<open>Get K\<close> and \<open>Get (Reverse K)\<close> return
  the same result (the same connection, or both the not-found error); a connection filed
  with \<open>Put\<close> under \<open>K\<close> is the one found under \<open>Reverse K\<close>, in a single pool entry.
\<close>

theorem pool_lookup_direction_agnostic:
  "Has p (Reverse K) = Has p K \<and>
   Get p (Reverse K) = Get p K \<and>
   Has (Put p K c) (Reverse K) \<and>
   Get (Put p K c) (Reverse K) = Inr c \<and>
   Get (Put p (Reverse K) c) K = Inr c \<and>
   Put (Put p K c) (Reverse K) c' = Put p K c'"
  by (simp add: Has_def Get_def Put_def flowKey_Reverse update_conv')

subsection \<open>Evaluation of the example data\<close>

lemmas ex_simps = exampleRunning_def NewInquisitor_def exampleOptions_def
  InquisitorOptions.extend_def Inquisitor.fields_def NewConnectionPool_def Put_def
  flowA_def flowB_def flowC_def NewTcpIpFlowFromFlows_def flowKey_def zeroConnection_def
  Connections_def doubleton_eq_iff

lemmas call_simps = connClose_def connStop_def connStart_def connReceivePacket_def
  startPacketLogger_def poolPut_def emit_def updConn_def

subsection \<open>Closing connections\<close>

lemma closeAllLoop_eq:
  "closeAllLoop cs i =
     i\<lparr>heap := (\<lambda>c. if c \<in> set cs then (heap i c)\<lparr>closeRequested := True\<rparr> else heap i c),
       trace := trace i @ map ConnClose cs\<rparr>"
proof (induction cs arbitrary: i)
  case Nil
  show ?case by simp
next
  case (Cons c cs)
  show ?case
    by (simp add: Cons.IH connClose_def emit_def updConn_def fun_eq_iff)
qed

lemma closeOlderLoop_eq:
  "closeOlderLoop cs t i k =
     (closeAllLoop (filter (\<lambda>c. lastSeen (heap i c) \<le> t) cs) i,
      k + int (length (filter (\<lambda>c. lastSeen (heap i c) \<le> t) cs)))"
proof (induction cs arbitrary: i k)
  case Nil
  show ?case by simp
next
  case (Cons c cs)
  have same: "\<And>x. lastSeen (heap (connClose c i) x) = lastSeen (heap i x)"
    by (simp add: connClose_def emit_def updConn_def)
  show ?case
    by (simp add: Cons.IH same le_less eq_commute)
qed

lemma CloseOlderThan_eq:
  "CloseOlderThan t i =
     (i\<lparr>heap := (\<lambda>c. if c \<in> set (olderThan t i) then (heap i c)\<lparr>closeRequested := True\<rparr> else heap i c),
        trace := trace i @ LogPrintf ''CloseOlderThan %s'' [t] # map ConnClose (olderThan t i)\<rparr>,
      int (length (olderThan t i)))"
  by (simp add: CloseOlderThan_def Let_def closeOlderLoop_eq closeAllLoop_eq emit_def olderThan_def
      cong: if_cong)


text \<open>
  Claim C3. For every threshold \<open>t\<close>, \<open>CloseOlderThan t\<close> calls \<open>Close\<close> on exactly the
  connections of the pool whose \<open>lastSeen\<close> is at or before \<open>t\<close> (after its log line,
  these are all the calls it makes), so closure is requested on a connection afterwards
  iff it was before or the connection is one of those; every connection with \<open>lastSeen\<close>
  after \<open>t\<close> is left as it was, the pool is not changed, and the number returned is the
  number of \<open>Close\<close> calls made, which is the number of such connections when the pool
  holds each connection once.
\<close>

theorem CloseOlderThan_closes_exactly_older:
  "trace (fst (CloseOlderThan t i)) =
     trace i @ LogPrintf ''CloseOlderThan %s'' [t] #
       map ConnClose (filter (\<lambda>c. lastSeen (heap i c) \<le> t) (Connections (pool i))) \<and>
   (\<forall>c. closeRequested (heap (fst (CloseOlderThan t i)) c) =
        (closeRequested (heap i c) \<or> (c \<in> set (Connections (pool i)) \<and> lastSeen (heap i c) \<le> t))) \<and>
   (\<forall>c. t < lastSeen (heap i c) \<longrightarrow> heap (fst (CloseOlderThan t i)) c = heap i c) \<and>
   pool (fst (CloseOlderThan t i)) = pool i \<and>
   snd (CloseOlderThan t i) =
     int (length (filter (\<lambda>c. lastSeen (heap i c) \<le> t) (Connections (pool i)))) \<and>
   (distinct (Connections (pool i)) \<longrightarrow>
      snd (CloseOlderThan t i) = int (card {c \<in> set (Connections (pool i)). lastSeen (heap i c) \<le> t}))"
proof -
  have card_eq: "distinct (Connections (pool i)) \<Longrightarrow>
      length (olderThan t i) = card {c \<in> set (Connections (pool i)). lastSeen (heap i c) \<le> t}"
  proof -
    assume d: "distinct (Connections (pool i))"
    then have "distinct (olderThan t i)" by (simp add: olderThan_def)
    then have "card (set (olderThan t i)) = length (olderThan t i)" by (rule distinct_card)
    then show ?thesis by (simp add: olderThan_def)
  qed
  show ?thesis
    using card_eq by (auto simp: CloseOlderThan_eq olderThan_def)
qed

theorem CloseOlderThan_closes_exactly_older_witness:
  "150 < lastSeen (heap exampleRunning 1) \<and>
   distinct (Connections (pool exampleRunning)) \<and>
   heap (fst (CloseOlderThan 150 exampleRunning)) 1 = heap exampleRunning 1 \<and>
   closeRequested (heap (fst (CloseOlderThan 150 exampleRunning)) 0) \<and>
   \<not> closeRequested (heap (fst (CloseOlderThan 150 exampleRunning)) 1) \<and>
   snd (CloseOlderThan 150 exampleRunning) = 1 \<and>
   card {c \<in> set (Connections (pool exampleRunning)). lastSeen (heap exampleRunning c) \<le> 150} = 1"
proof -
  have h1: "150 < lastSeen (heap exampleRunning 1)"
    by (simp add: ex_simps)
  have h2: "distinct (Connections (pool exampleRunning))"
    by (simp add: ex_simps)
  have h3: "filter (\<lambda>c. lastSeen (heap exampleRunning c) \<le> 150) (Connections (pool exampleRunning)) = [0]"
    by (simp add: ex_simps)
  have h4: "Connections (pool exampleRunning) = [0, 1]"
    by (simp add: ex_simps)
  have h5: "\<not> closeRequested (heap exampleRunning 1)" "lastSeen (heap exampleRunning 0) = 100"
    by (simp_all add: ex_simps)
  from CloseOlderThan_closes_exactly_older [of 150 exampleRunning] h1 h2 h3 h5
  show ?thesis by (simp add: h4)
qed

subsection \<open>The idle timer\<close>

lemma eventSelect_Tick:
  "eventSelect i (Tick now) =
     Continue (if snd (CloseOlderThan (now - TcpIdleTimeout i) i) \<noteq> 0
               then emit (LogPrintf ''timeout closed %d connections'' [snd (CloseOlderThan (now - TcpIdleTimeout i) i)])
                      (fst (CloseOlderThan (now - TcpIdleTimeout i) i))
               else fst (CloseOlderThan (now - TcpIdleTimeout i) i))"
  by (simp add: eventSelect_def case_prod_beta Let_def)

text \<open>
  Claim C5. The dispatcher's timer has period \<open>TcpIdleTimeout\<close> (when that is positive:
  otherwise there are no ticks). Taking a tick at wall-clock time \<open>now\<close>, the dispatcher
  calls \<open>CloseOlderThan (now - TcpIdleTimeout)\<close> (the call logs its threshold), and
  \<open>Close\<close> is called at that tick on every connection of the pool that has been idle for
  longer than \<open>TcpIdleTimeout\<close>.
\<close>

theorem tick_closes_idle_connections:
  "enabled i (Tick now) \<Longrightarrow>
     ticker i = Some (TcpIdleTimeout i) \<and>
     (\<exists>i'. eventSelect i (Tick now) = Continue i' \<and>
        pool i' = pool i \<and>
        newCalls i i' =
          LogPrintf ''CloseOlderThan %s'' [now - TcpIdleTimeout i] #
          map ConnClose (olderThan (now - TcpIdleTimeout i) i) @
          (if olderThan (now - TcpIdleTimeout i) i = [] then []
           else [LogPrintf ''timeout closed %d connections'' [int (length (olderThan (now - TcpIdleTimeout i) i))]]) \<and>
        (\<forall>c \<in> set (Connections (pool i)).
           TcpIdleTimeout i < now - lastSeen (heap i c) \<longrightarrow>
             closeRequested (heap i' c) \<and> ConnClose c \<in> set (newCalls i i')))"
proof -
  assume en: "enabled i (Tick now)"
  then have tk: "ticker i = Some (TcpIdleTimeout i)"
    by (simp add: enabled_def ticker_def split: if_splits)
  have idle: "\<And>c. c \<in> set (Connections (pool i)) \<Longrightarrow> TcpIdleTimeout i < now - lastSeen (heap i c)
      \<Longrightarrow> c \<in> set (olderThan (now - TcpIdleTimeout i) i)"
    by (simp add: olderThan_def)
  show ?thesis
    using tk idle
    by (auto simp: eventSelect_Tick CloseOlderThan_eq emit_def newCalls_def)
qed

theorem tick_closes_idle_connections_witness:
  "enabled exampleRunning (Tick 160) \<and>
   0 \<in> set (Connections (pool exampleRunning)) \<and>
   TcpIdleTimeout exampleRunning < 160 - lastSeen (heap exampleRunning 0) \<and>
   (\<exists>i'. eventSelect exampleRunning (Tick 160) = Continue i' \<and>
      closeRequested (heap i' 0) \<and> ConnClose 0 \<in> set (newCalls exampleRunning i') \<and>
      newCalls exampleRunning i' =
        [LogPrintf ''CloseOlderThan %s'' [110], ConnClose 0, LogPrintf ''timeout closed %d connections'' [1]])"
proof -
  have h1: "enabled exampleRunning (Tick 160)"
    by (simp add: enabled_def ticker_def ex_simps)
  have h2: "0 \<in> set (Connections (pool exampleRunning))"
    by (simp add: ex_simps)
  have h3: "TcpIdleTimeout exampleRunning < 160 - lastSeen (heap exampleRunning 0)"
    by (simp add: ex_simps)
  have h4: "olderThan 110 exampleRunning = [0]" "TcpIdleTimeout exampleRunning = 50"
    by (simp_all add: olderThan_def ex_simps)
  from tick_closes_idle_connections [OF h1] h2 h3 h4
  show ?thesis using h1 by auto
qed

subsection \<open>Packets at the dispatcher\<close>

lemma Has_Get: "Has p f \<Longrightarrow> \<exists>c. Get p f = Inr c"
  by (auto simp: Has_def Get_def)

lemma closeSelect_keeps:
  "pool (closeSelect i) = pool i"
  "MaxConcurrentConnections (closeSelect i) = MaxConcurrentConnections i"
  "nextConn (closeSelect i) = nextConn i"
  by (simp_all add: closeSelect_def connStop_def emit_def updConn_def split: list.splits)

text \<open>
  Claim C1. When a packet manifest arrives whose flow key is not in the pool, with
  \<open>MaxConcurrentConnections > 0\<close> and at least that many connections in the pool, the
  dispatcher leaves its whole state as it is: no connection is created, none is removed
  and nothing is logged or called (over the whole loop iteration, nothing is done beyond
  the close-request select that precedes it). A manifest whose flow key is in the pool is
  handed, unchanged, to the connection the pool holds for it, whatever the pool's size.
\<close>

theorem full_pool_drops_new_flow:
  "(\<not> Has (pool i) (Flow pm) \<and> 0 < MaxConcurrentConnections i \<and> MaxConcurrentConnections i \<le> Len (pool i) \<longrightarrow>
      eventSelect i (Manifest pm) = Continue i \<and>
      dispatchIteration i (Manifest pm) = Continue (closeSelect i)) \<and>
   (Has (pool i) (Flow pm) \<longrightarrow>
      (\<exists>c. Get (pool i) (Flow pm) = Inr c \<and>
           eventSelect i (Manifest pm) = Continue (connReceivePacket c pm i) \<and>
           pool (connReceivePacket c pm i) = pool i \<and>
           nextConn (connReceivePacket c pm i) = nextConn i \<and>
           trace (connReceivePacket c pm i) = trace i @ [ConnReceivePacket c pm] \<and>
           inbox (heap (connReceivePacket c pm i) c) = inbox (heap i c) @ [pm]))"
proof -
  have drop: "\<And>j. \<not> Has (pool j) (Flow pm) \<Longrightarrow> 0 < MaxConcurrentConnections j \<Longrightarrow>
      MaxConcurrentConnections j \<le> Len (pool j) \<Longrightarrow> eventSelect j (Manifest pm) = Continue j"
    by (simp add: eventSelect_def)
  have deliver: "\<And>c. Get (pool i) (Flow pm) = Inr c \<Longrightarrow> Has (pool i) (Flow pm) \<Longrightarrow>
      eventSelect i (Manifest pm) = Continue (connReceivePacket c pm i)"
    by (simp add: eventSelect_def)
  have recv: "\<And>c. pool (connReceivePacket c pm i) = pool i \<and>
      nextConn (connReceivePacket c pm i) = nextConn i \<and>
      trace (connReceivePacket c pm i) = trace i @ [ConnReceivePacket c pm] \<and>
      inbox (heap (connReceivePacket c pm i) c) = inbox (heap i c) @ [pm]"
    by (simp add: connReceivePacket_def emit_def updConn_def)
  show ?thesis
  proof (intro conjI impI)
    assume a: "\<not> Has (pool i) (Flow pm) \<and> 0 < MaxConcurrentConnections i \<and> MaxConcurrentConnections i \<le> Len (pool i)"
    then show "eventSelect i (Manifest pm) = Continue i" by (simp add: drop)
    from a show "dispatchIteration i (Manifest pm) = Continue (closeSelect i)"
      unfolding dispatchIteration_def by (intro drop) (simp_all add: closeSelect_keeps)
  next
    assume h: "Has (pool i) (Flow pm)"
    then obtain c where g: "Get (pool i) (Flow pm) = Inr c" using Has_Get by blast
    show "\<exists>c. Get (pool i) (Flow pm) = Inr c \<and>
           eventSelect i (Manifest pm) = Continue (connReceivePacket c pm i) \<and>
           pool (connReceivePacket c pm i) = pool i \<and>
           nextConn (connReceivePacket c pm i) = nextConn i \<and>
           trace (connReceivePacket c pm i) = trace i @ [ConnReceivePacket c pm] \<and>
           inbox (heap (connReceivePacket c pm i) c) = inbox (heap i c) @ [pm]"
      using g deliver [OF g h] recv [of c] by blast
  qed
qed

theorem full_pool_drops_new_flow_witness:
  "\<not> Has (pool exampleRunning) (Flow (manifestOf 210 flowC)) \<and>
   0 < MaxConcurrentConnections exampleRunning \<and>
   MaxConcurrentConnections exampleRunning \<le> Len (pool exampleRunning) \<and>
   eventSelect exampleRunning (Manifest (manifestOf 210 flowC)) = Continue exampleRunning \<and>
   Has (pool exampleRunning) (Flow (manifestOf 210 (Reverse flowB))) \<and>
   eventSelect exampleRunning (Manifest (manifestOf 210 (Reverse flowB))) =
     Continue (connReceivePacket 1 (manifestOf 210 (Reverse flowB)) exampleRunning)"
proof -
  have h1: "\<not> Has (pool exampleRunning) (Flow (manifestOf 210 flowC))"
    by (simp add: Has_def manifestOf_def ex_simps)
  have h2: "0 < MaxConcurrentConnections exampleRunning"
    "MaxConcurrentConnections exampleRunning \<le> Len (pool exampleRunning)"
    by (simp_all add: Len_def ex_simps)
  have h3: "Has (pool exampleRunning) (Flow (manifestOf 210 (Reverse flowB)))"
    by (simp add: Has_def manifestOf_def Reverse_def ex_simps)
  have h4: "Get (pool exampleRunning) (Flow (manifestOf 210 (Reverse flowB))) = Inr 1"
    by (simp add: Get_def manifestOf_def Reverse_def ex_simps)
  from full_pool_drops_new_flow [of exampleRunning "manifestOf 210 flowC"] h1 h2
  have a: "eventSelect exampleRunning (Manifest (manifestOf 210 flowC)) = Continue exampleRunning"
    by blast
  from full_pool_drops_new_flow [of exampleRunning "manifestOf 210 (Reverse flowB)"] h3 h4
  have b: "eventSelect exampleRunning (Manifest (manifestOf 210 (Reverse flowB))) =
     Continue (connReceivePacket 1 (manifestOf 210 (Reverse flowB)) exampleRunning)"
    by auto
  from h1 h2 h3 a b show ?thesis by blast
qed

subsection \<open>New connections\<close>

lemma setupNewConnection_eq:
  "setupNewConnection i flow =
     (nextConn i,
      i\<lparr>pool := Put (pool i) flow (nextConn i),
        heap := (heap i)(nextConn i :=
                  zeroConnection\<lparr>options :=
                     \<lparr>MaxBufferedPagesTotal = BufferedTotal i,
                      MaxBufferedPagesPerConnection = BufferedPerConnection i,
                      connMaxRingPackets = MaxRingPackets i,
                      connLogDir = LogDir i,
                      connLogPackets = LogPackets i,
                      connDetectHijack = DetectHijack i,
                      connDetectInjection = DetectInjection i,
                      connDetectCoalesceInjection = DetectCoalesceInjection i\<rparr>,
                    packetLogger := LogPackets i, started := True\<rparr>),
        nextConn := Suc (nextConn i),
        trace := trace i @ NewConnectionCall (nextConn i) #
                   (if LogPackets i then [PacketLoggerStart (nextConn i)] else []) @
                   [PoolPut (flowKey flow) (nextConn i), ConnStart (nextConn i)]\<rparr>)"
  by (simp add: setupNewConnection_def NewConnection_def Let_def call_simps zeroConnection_def)

lemma eventSelect_new_flow:
  assumes "\<not> Has (pool i) (Flow pm)"
    and "\<not> (MaxConcurrentConnections i \<noteq> 0 \<and> MaxConcurrentConnections i \<le> Len (pool i))"
  shows "eventSelect i (Manifest pm) =
           Continue (connReceivePacket (nextConn i) pm (snd (setupNewConnection i (Flow pm))))"
proof -
  from assms(2) have full: "(MaxConcurrentConnections i \<noteq> 0 \<and> MaxConcurrentConnections i \<le> Len (pool i)) = False"
    by simp
  show ?thesis
    by (simp add: eventSelect_def assms(1) full setupNewConnection_eq)
qed




lemma eventSelect_known_flow:
  assumes "map_of (pool i) (flowKey (Flow pm)) = Some c"
  shows "eventSelect i (Manifest pm) = Continue (connReceivePacket c pm i)"
  using assms by (simp add: eventSelect_def Has_def Get_def)



subsection \<open>Close requests\<close>

lemma eventSelect_frame:
  assumes "eventSelect j ev = Continue j'"
  shows "\<exists>tr. trace j' = trace j @ tr \<and> (\<forall>d. ConnStop d \<notin> set tr) \<and>
           closeConnectionChan j' = closeConnectionChan j \<and>
           (\<forall>d. stopped (heap j' d) \<longrightarrow> stopped (heap j d))"
proof (cases ev)
  case (Tick now)
  with assms show ?thesis
    by (auto simp: eventSelect_Tick CloseOlderThan_eq emit_def split: if_splits)
next
  case StopDispatch
  with assms show ?thesis by (simp add: eventSelect_def)
next
  case (Manifest pm)
  show ?thesis
  proof (cases "Has (pool j) (Flow pm)")
    case True
    then obtain d where "map_of (pool j) (flowKey (Flow pm)) = Some d" by (auto simp: Has_def)
    with assms Manifest show ?thesis
      by (auto simp: eventSelect_known_flow call_simps)
  next
    case noHas: False
    show ?thesis
    proof (cases "MaxConcurrentConnections j \<noteq> 0 \<and> MaxConcurrentConnections j \<le> Len (pool j)")
      case True
      with assms Manifest noHas show ?thesis by (auto simp: eventSelect_def)
    next
      case False
      with assms Manifest noHas show ?thesis
        by (auto simp: eventSelect_new_flow setupNewConnection_eq call_simps zeroConnection_def)
    qed
  qed
qed

lemma closeSelect_request:
  assumes "closeConnectionChan i = c # rest"
  shows "closeSelect i =
           i\<lparr>closeConnectionChan := rest,
             heap := (heap i)(c := (heap i c)\<lparr>stopped := True\<rparr>),
             trace := trace i @ [LogPrint ''Close request received.'', ConnStop c]\<rparr>"
  using assms by (simp add: closeSelect_def call_simps)

text \<open>
  Claim C6, as amended. In every iteration of the dispatcher loop at most one pending
  close request is processed: with none pending the iteration is the second \<open>select\<close>
  alone; otherwise the oldest request is received, its connection is stopped, and only then
  does the loop take a tick, the stop signal or a packet manifest, so that this \<open>Stop\<close>
  precedes every \<open>ReceivePacket\<close> of the iteration. No other connection is stopped in
  the iteration, and the other requests are still pending after it.
\<close>

theorem one_close_request_before_packet:
  "(closeConnectionChan i = [] \<longrightarrow> dispatchIteration i ev = eventSelect i ev) \<and>
   (closeConnectionChan i = c # rest \<longrightarrow>
      newCalls i (closeSelect i) = [LogPrint ''Close request received.'', ConnStop c] \<and>
      stopped (heap (closeSelect i) c) \<and>
      closeConnectionChan (closeSelect i) = rest \<and>
      dispatchIteration i ev = eventSelect (closeSelect i) ev \<and>
      (\<forall>i'. dispatchIteration i ev = Continue i' \<longrightarrow>
         take 2 (newCalls i i') = [LogPrint ''Close request received.'', ConnStop c] \<and>
         (\<forall>d. ConnStop d \<notin> set (drop 2 (newCalls i i'))) \<and>
         (\<forall>d m. ConnReceivePacket d m \<in> set (newCalls i i') \<longrightarrow>
            precedes (ConnStop c) (ConnReceivePacket d m) (newCalls i i')) \<and>
         closeConnectionChan i' = rest \<and>
         (\<forall>d. d \<noteq> c \<longrightarrow> stopped (heap i' d) \<longrightarrow> stopped (heap i d))))"
proof (intro conjI impI)
  assume "closeConnectionChan i = []"
  then show "dispatchIteration i ev = eventSelect i ev"
    by (simp add: dispatchIteration_def closeSelect_def)
next
  assume q: "closeConnectionChan i = c # rest"
  show "newCalls i (closeSelect i) = [LogPrint ''Close request received.'', ConnStop c]"
    by (simp add: closeSelect_request [OF q] newCalls_def)
next
  assume q: "closeConnectionChan i = c # rest"
  show "stopped (heap (closeSelect i) c)"
    by (simp add: closeSelect_request [OF q])
next
  assume q: "closeConnectionChan i = c # rest"
  show "closeConnectionChan (closeSelect i) = rest"
    by (simp add: closeSelect_request [OF q])
next
  show "dispatchIteration i ev = eventSelect (closeSelect i) ev"
    by (simp add: dispatchIteration_def)
next
  assume q: "closeConnectionChan i = c # rest"
  show "\<forall>i'. dispatchIteration i ev = Continue i' \<longrightarrow>
         take 2 (newCalls i i') = [LogPrint ''Close request received.'', ConnStop c] \<and>
         (\<forall>d. ConnStop d \<notin> set (drop 2 (newCalls i i'))) \<and>
         (\<forall>d m. ConnReceivePacket d m \<in> set (newCalls i i') \<longrightarrow>
            precedes (ConnStop c) (ConnReceivePacket d m) (newCalls i i')) \<and>
         closeConnectionChan i' = rest \<and>
         (\<forall>d. d \<noteq> c \<longrightarrow> stopped (heap i' d) \<longrightarrow> stopped (heap i d))"
  proof (intro allI impI)
  fix i'
  assume r: "dispatchIteration i ev = Continue i'"
  from r have "eventSelect (closeSelect i) ev = Continue i'"
    by (simp add: dispatchIteration_def)
  from eventSelect_frame [OF this]
  obtain tr where tr: "trace i' = trace (closeSelect i) @ tr"
    and nostop: "\<forall>d. ConnStop d \<notin> set tr"
    and chan: "closeConnectionChan i' = closeConnectionChan (closeSelect i)"
    and stp: "\<forall>d. stopped (heap i' d) \<longrightarrow> stopped (heap (closeSelect i) d)"
    by blast
  have calls: "newCalls i i' = LogPrint ''Close request received.'' # ConnStop c # tr"
    by (simp add: newCalls_def tr closeSelect_request [OF q])
  have t2: "take 2 (newCalls i i') = [LogPrint ''Close request received.'', ConnStop c]"
    by (simp add: calls)
  have ns: "\<forall>d. ConnStop d \<notin> set (drop 2 (newCalls i i'))"
    using nostop by (simp add: calls)
  have pr: "\<forall>d m. ConnReceivePacket d m \<in> set (newCalls i i') \<longrightarrow>
            precedes (ConnStop c) (ConnReceivePacket d m) (newCalls i i')"
    by (simp add: calls)
  have ch: "closeConnectionChan i' = rest"
    by (simp add: chan closeSelect_request [OF q])
  have st: "\<forall>d. d \<noteq> c \<longrightarrow> stopped (heap i' d) \<longrightarrow> stopped (heap i d)"
    using stp by (auto simp: closeSelect_request [OF q] split: if_splits)
  from t2 ns pr ch st
  show "take 2 (newCalls i i') = [LogPrint ''Close request received.'', ConnStop c] \<and>
         (\<forall>d. ConnStop d \<notin> set (drop 2 (newCalls i i'))) \<and>
         (\<forall>d m. ConnReceivePacket d m \<in> set (newCalls i i') \<longrightarrow>
            precedes (ConnStop c) (ConnReceivePacket d m) (newCalls i i')) \<and>
         closeConnectionChan i' = rest \<and>
         (\<forall>d. d \<noteq> c \<longrightarrow> stopped (heap i' d) \<longrightarrow> stopped (heap i d))"
    by blast
  qed
qed

theorem one_close_request_before_packet_witness:
  "closeConnectionChan examplePending = 0 # [1] \<and>
   dispatchIteration examplePending (Manifest (manifestOf 210 flowB)) =
     Continue (connReceivePacket 1 (manifestOf 210 flowB) (closeSelect examplePending)) \<and>
   take 2 (newCalls examplePending (connReceivePacket 1 (manifestOf 210 flowB) (closeSelect examplePending))) =
     [LogPrint ''Close request received.'', ConnStop 0] \<and>
   closeConnectionChan (connReceivePacket 1 (manifestOf 210 flowB) (closeSelect examplePending)) = [1] \<and>
   closeConnectionChan (exampleRunning) = [] \<and>
   dispatchIteration exampleRunning (Tick 160) = eventSelect exampleRunning (Tick 160)"
proof -
  let ?pm = "manifestOf 210 flowB"
  let ?i' = "connReceivePacket 1 ?pm (closeSelect examplePending)"
  have q: "closeConnectionChan examplePending = 0 # [1]"
    by (simp add: examplePending_def)
  have known: "map_of (pool (closeSelect examplePending)) (flowKey (Flow ?pm)) = Some 1"
    by (simp add: closeSelect_keeps examplePending_def manifestOf_def ex_simps)
  have step: "dispatchIteration examplePending (Manifest ?pm) = Continue ?i'"
    by (simp add: dispatchIteration_def eventSelect_known_flow [OF known])
  have e: "closeConnectionChan exampleRunning = []"
    by (simp add: ex_simps)
  note fact6 = one_close_request_before_packet
  from fact6 [where i = examplePending and c = 0 and rest = "[1]" and ev = "Manifest ?pm", THEN conjunct2] q step
  have a: "take 2 (newCalls examplePending ?i') = [LogPrint ''Close request received.'', ConnStop 0]"
    and b: "closeConnectionChan ?i' = [1]"
    by blast+
  from fact6 [where i = exampleRunning and ev = "Tick 160", THEN conjunct1] e
  have c: "dispatchIteration exampleRunning (Tick 160) = eventSelect exampleRunning (Tick 160)"
    by blast
  from q step a b e c show ?thesis by blast
qed

text \<open>
  Claim C6 as stated fails: with the close requests of connections 0 and 1 both pending
  and a manifest of connection 1's flow arriving, the iteration stops connection 0 only;
  connection 1, whose request is still pending, is not stopped and is handed the manifest.
\<close>

theorem pending_close_request_still_receives:
  "1 \<in> set (closeConnectionChan examplePending) \<and>
   dispatchIteration examplePending (Manifest (manifestOf 210 flowB)) =
     Continue (connReceivePacket 1 (manifestOf 210 flowB) (closeSelect examplePending)) \<and>
   newCalls examplePending (connReceivePacket 1 (manifestOf 210 flowB) (closeSelect examplePending)) =
     [LogPrint ''Close request received.'', ConnStop 0, ConnReceivePacket 1 (manifestOf 210 flowB)] \<and>
   \<not> stopped (heap (connReceivePacket 1 (manifestOf 210 flowB) (closeSelect examplePending)) 1) \<and>
   1 \<in> set (closeConnectionChan (connReceivePacket 1 (manifestOf 210 flowB) (closeSelect examplePending)))"
proof -
  let ?pm = "manifestOf 210 flowB"
  have q: "closeConnectionChan examplePending = 0 # [1]"
    by (simp add: examplePending_def)
  have known: "map_of (pool (closeSelect examplePending)) (flowKey (Flow ?pm)) = Some 1"
    by (simp add: closeSelect_keeps examplePending_def manifestOf_def ex_simps)
  have step: "dispatchIteration examplePending (Manifest ?pm) =
      Continue (connReceivePacket 1 ?pm (closeSelect examplePending))"
    by (simp add: dispatchIteration_def eventSelect_known_flow [OF known])
  have nst: "\<not> stopped (heap examplePending 1)"
    by (simp add: examplePending_def ex_simps)
  show ?thesis
    using q step nst
    by (simp add: closeSelect_request [OF q] call_simps newCalls_def)
qed

subsection \<open>Shutdown on end of stream\<close>






subsection \<open>Startup\<close>

text \<open>
  Claim C7. \<open>main\<close> requires one of \<open>maxConcurrentConnections\<close> and \<open>bufferedTotal\<close> to
  be non-zero. With both zero it ends in a fatal exit, whatever the other flags, and so
  never reaches \<open>supervisor.Run\<close>, where capture begins; once the wire timeout is parsed
  the exit is the one of this check. With at least one of them non-zero it never takes
  the exit of this check, and (the wire timeout parsed) goes on to start the logger and
  run the supervisor with the options copied from the flags.
\<close>

theorem main_requires_a_bound:
  "(maxConcurrentConnections f = 0 \<and> bufferedTotal f = 0 \<longrightarrow>
      (\<exists>e. main parsed f = Inl e) \<and> main (Inr d) f = Inl BufferBoundsUnset) \<and>
   (maxConcurrentConnections f \<noteq> 0 \<or> bufferedTotal f \<noteq> 0 \<longrightarrow>
      main parsed f \<noteq> Inl BufferBoundsUnset \<and>
      (\<exists>s. main (Inr d) f = Inr s \<and> optionsFrom s = f \<and> wireDuration s = d))"
  by (auto simp: main_def split: sum.splits)

theorem main_requires_a_bound_witness:
  "maxConcurrentConnections defaultFlags = 0 \<and> bufferedTotal defaultFlags = 0 \<and>
   main (Inr 3000000000) defaultFlags = Inl BufferBoundsUnset \<and>
   bufferedTotal (defaultFlags\<lparr>bufferedTotal := 1000\<rparr>) \<noteq> 0 \<and>
   (\<exists>s. main (Inr 3000000000) (defaultFlags\<lparr>bufferedTotal := 1000\<rparr>) = Inr s \<and>
        optionsFrom s = defaultFlags\<lparr>bufferedTotal := 1000\<rparr>) \<and>
   maxConcurrentConnections (defaultFlags\<lparr>maxConcurrentConnections := 100\<rparr>) \<noteq> 0 \<and>
   (\<exists>s. main (Inr 3000000000) (defaultFlags\<lparr>maxConcurrentConnections := 100\<rparr>) = Inr s)"
proof -
  have z: "maxConcurrentConnections defaultFlags = 0 \<and> bufferedTotal defaultFlags = 0"
    by (simp add: defaultFlags_def)
  have n1: "bufferedTotal (defaultFlags\<lparr>bufferedTotal := 1000\<rparr>) \<noteq> 0"
    by simp
  have n2: "maxConcurrentConnections (defaultFlags\<lparr>maxConcurrentConnections := 100\<rparr>) \<noteq> 0"
    by simp
  note fact7 = main_requires_a_bound
  from fact7 [where f = defaultFlags and d = 3000000000, THEN conjunct1] z
  have a: "main (Inr 3000000000) defaultFlags = Inl BufferBoundsUnset"
    by blast
  from fact7 [where f = "defaultFlags\<lparr>bufferedTotal := 1000\<rparr>" and d = 3000000000, THEN conjunct2] n1
  have b: "\<exists>s. main (Inr 3000000000) (defaultFlags\<lparr>bufferedTotal := 1000\<rparr>) = Inr s \<and>
        optionsFrom s = defaultFlags\<lparr>bufferedTotal := 1000\<rparr>"
    by blast
  from fact7 [where f = "defaultFlags\<lparr>maxConcurrentConnections := 100\<rparr>" and d = 3000000000, THEN conjunct2] n2
  have c: "\<exists>s. main (Inr 3000000000) (defaultFlags\<lparr>maxConcurrentConnections := 100\<rparr>) = Inr s"
    by blast
  from z a n1 b n2 c show ?thesis by blast
qed

subsection \<open>The decoder\<close>






end
